theory Spec2Isabelle
  imports Main "HOL-Library.Sublist"
begin

section \<open>The CWC server (packages/aiy-cwc-server/server.py)\<close>

text \<open>
  A shallow embedding of the session code of \<^verbatim>\<open>server.py\<close>: the parsers of the
  three client commands, the staging of the client's files (\<^verbatim>\<open>TempDirectory\<close>),
  \<^verbatim>\<open>start_process\<close>, the read and receive loops and \<^verbatim>\<open>communicate\<close>.

  Python values that come off the wire are JSON values; a Python \<^verbatim>\<open>str\<close> and a
  \<^verbatim>\<open>bytes\<close> are both lists of characters (a string is held as its UTF-8 bytes, so
  \<^verbatim>\<open>.encode('utf-8')\<close> is the identity); a \<^verbatim>\<open>dict\<close> is an association list in
  insertion order, with distinct keys. JSON numbers are the integers. Every exception the
  code can raise is a value \<open>Inl e\<close>.
\<close>

subsection \<open>JSON values, exceptions\<close>

type_synonym bytes = string

datatype json =
    JNull
  | JBool bool
  | JNum int
  | JStr string
  | JArr "json list"
  | JObj "(string \<times> json) list"

datatype error =
    AttributeError
  | KeyError
  | TypeError
  | ValidationError
  | JSONDecodeError
  | Base64Error
  | FileNotFoundError
  | NotADirectoryError
  | IsADirectoryError
  | FileExistsError
  | PermissionError
  | OSError
  | ValueError
  | ProcessLookupError

text \<open>\<^verbatim>\<open>msg.get(key, default)\<close>: only a dict has the method.\<close>

fun py_get :: "json \<Rightarrow> string \<Rightarrow> json \<Rightarrow> error + json" where
  "py_get (JObj kvs) k d = Inr (case map_of kvs k of Some v \<Rightarrow> v | None \<Rightarrow> d)"
| "py_get _ k d = Inl AttributeError"

text \<open>\<^verbatim>\<open>msg[key]\<close> with a string key.\<close>

fun py_getitem :: "json \<Rightarrow> string \<Rightarrow> error + json" where
  "py_getitem (JObj kvs) k = (case map_of kvs k of Some v \<Rightarrow> Inr v | None \<Rightarrow> Inl KeyError)"
| "py_getitem _ k = Inl TypeError"

text \<open>\<^verbatim>\<open>s.encode('utf-8')\<close>: only a \<^verbatim>\<open>str\<close> has the method.\<close>

fun py_encode :: "json \<Rightarrow> error + bytes" where
  "py_encode (JStr s) = Inr s"
| "py_encode _ = Inl AttributeError"

text \<open>A value used as an integer: \<^verbatim>\<open>bool\<close> is a subclass of \<^verbatim>\<open>int\<close>.\<close>

fun py_int :: "json \<Rightarrow> error + int" where
  "py_int (JNum n) = Inr n"
| "py_int (JBool b) = Inr (if b then 1 else 0)"
| "py_int _ = Inl TypeError"

text \<open>\<^verbatim>\<open>*args\<close>: the elements of a list, the characters of a string, the keys of a dict.\<close>

fun py_iter :: "json \<Rightarrow> error + json list" where
  "py_iter (JArr xs) = Inr xs"
| "py_iter (JStr s) = Inr (map (\<lambda>c. JStr [c]) s)"
| "py_iter (JObj kvs) = Inr (map (\<lambda>kv. JStr (fst kv)) kvs)"
| "py_iter _ = Inl TypeError"

text \<open>Sequencing of a computation that may raise.\<close>

definition and_then :: "error + 'a \<Rightarrow> ('a \<Rightarrow> error + 'b) \<Rightarrow> error + 'b" where
  "and_then r f = (case r of Inl e \<Rightarrow> Inl e | Inr x \<Rightarrow> f x)"

fun all_or_raise :: "('a \<Rightarrow> error + 'b) \<Rightarrow> 'a list \<Rightarrow> error + 'b list" where
  "all_or_raise f [] = Inr []"
| "all_or_raise f (x # xs) =
     and_then (f x) (\<lambda>y. and_then (all_or_raise f xs) (\<lambda>ys. Inr (y # ys)))"

subsection \<open>What the server takes from its platform\<close>

text \<open>
  A child is started from the arguments of \<^verbatim>\<open>asyncio.create_subprocess_exec\<close>. What
  the child then does is not the server's: it is given by the bursts of bytes that arrive
  on its two output pipes and by its return code.
\<close>

datatype redirect = PIPE | STDOUT | DEVNULL

record spawn_request =
  sp_args :: "string list"
  sp_stdin :: redirect
  sp_stdout :: redirect
  sp_stderr :: redirect
  sp_env :: "string \<rightharpoonup> string"
  sp_cwd :: string

record child =
  child_stdout :: "bytes list"
  child_stderr :: "bytes list"
  child_returncode :: int

text \<open>
  The functions of libraries and of the operating system that the session code calls are
  parameters of the model, so that every theorem holds for each of their behaviours:
  \<^item> \<open>validation\<close>: \<open>None\<close> is the default \<^verbatim>\<open>validate_msg\<close>, which returns its
    argument; \<open>Some ok\<close> is the one installed by \<^verbatim>\<open>enable_validation\<close>, where \<open>ok\<close>
    is \<^verbatim>\<open>jsonschema.validate\<close> against \<^verbatim>\<open>schema.SERVER_COMMANDS\<close>;
  \<^item> \<open>b64decode\<close>: \<^verbatim>\<open>base64.b64decode\<close>, which raises on incorrect padding;
    \<open>b64encode\<close>: \<^verbatim>\<open>base64.b64encode\<close>;
  \<^item> \<open>os_environ\<close>: the environment of the server process;
  \<^item> \<open>gettempdir\<close> and \<open>mkdtemp_name\<close>: the directory of temporary files, as its
    components from the root, and the random part of the name that
    \<^verbatim>\<open>tempfile.TemporaryDirectory\<close> chooses;
  \<^item> \<open>create_subprocess_exec\<close>: the start of a child, which fails (no such executable,
    no permission) or gives the child;
  \<^item> \<open>send_signal\<close>: whether \<^verbatim>\<open>process.send_signal\<close> raises.
\<close>

record platform =
  validation :: "(json \<Rightarrow> bool) option"
  b64decode :: "bytes \<Rightarrow> error + bytes"
  b64encode :: "bytes \<Rightarrow> string"
  os_environ :: "string \<rightharpoonup> string"
  gettempdir :: "string list"
  mkdtemp_name :: string
  create_subprocess_exec :: "spawn_request \<Rightarrow> error + child"
  send_signal :: "int \<Rightarrow> error option"

subsection \<open>The file system under \<^verbatim>\<open>open\<close>\<close>

text \<open>
  A file system is the set of its directories and the contents of its files, each named
  by its components from the root, and the working directory of the server. There are no
  symbolic links. What else makes the operating system refuse an access is given with the
  file system: \<open>os_refuses\<close> is the error, if any, with which it refuses to enter a
  directory, or to create or truncate a file at a place (no permission, a file system that
  is read-only or full); \<open>write_refuses\<close> is the error with which it refuses to write
  bytes to a file that is open (no space left).

  A path is resolved component by component as Linux does: every directory on the way has
  to exist and to let the server in, no component is longer than \<open>NAME_MAX\<close> bytes and
  the path is shorter than \<open>PATH_MAX\<close> bytes.
\<close>

record filesystem =
  dirs :: "string list set"
  files :: "string list \<rightharpoonup> bytes"
  cwd :: "string list"
  os_refuses :: "string list \<Rightarrow> error option"
  write_refuses :: "string list \<Rightarrow> bytes \<Rightarrow> error option"

definition NAME_MAX :: nat where
  "NAME_MAX = 255"

definition PATH_MAX :: nat where
  "PATH_MAX = 4096"

fun split_sep :: "char \<Rightarrow> string \<Rightarrow> string list" where
  "split_sep c [] = [[]]"
| "split_sep c (x # xs) =
     (if x = c then [] # split_sep c xs
      else (case split_sep c xs of [] \<Rightarrow> [[x]] | w # ws \<Rightarrow> (x # w) # ws))"

text \<open>The components of a path without the empty ones that its trailing slashes make.\<close>

definition strip_slashes :: "string list \<Rightarrow> string list" where
  "strip_slashes comps = rev (dropWhile (\<lambda>c. c = []) (rev comps))"

text \<open>The string of an absolute path.\<close>

definition path_str :: "string list \<Rightarrow> string" where
  "path_str comps = (if comps = [] then ''/'' else concat (map (\<lambda>c. CHR ''/'' # c) comps))"

fun walk :: "filesystem \<Rightarrow> string list \<Rightarrow> string list \<Rightarrow> error + string list" where
  "walk fs cur [] = Inr cur"
| "walk fs cur (c # cs) =
     (if c = [] \<or> c = ''.'' then walk fs cur cs
      else if c = ''..'' then walk fs (butlast cur) cs
      else if NAME_MAX < length c then Inl OSError
      else if cur @ [c] \<in> dirs fs then
        (case os_refuses fs (cur @ [c]) of
           Some e \<Rightarrow> Inl e
         | None \<Rightarrow> walk fs (cur @ [c]) cs)
      else if files fs (cur @ [c]) \<noteq> None then Inl NotADirectoryError
      else Inl FileNotFoundError)"

text \<open>
  The directory that a path leads to: the walk along all its components but the last,
  from the root for an absolute path and from the working directory otherwise.
\<close>

definition dirname_walk :: "filesystem \<Rightarrow> string \<Rightarrow> error + string list" where
  "dirname_walk fs path =
     walk fs (if take 1 path = ''/'' then [] else cwd fs)
       (butlast (strip_slashes (split_sep CHR ''/'' path)))"

text \<open>
  \<^verbatim>\<open>open(path, 'wb')\<close>: the file is created, or truncated, in the directory that the
  path leads to. The result is the file opened and the file system after it. Python
  refuses a path with a null byte before it asks the operating system; the operating
  system refuses the empty path, a path that is too long, a path that names a directory
  (also by a trailing slash, which it refuses for a file to create), and what the walk or
  \<open>os_refuses\<close> refuses.
\<close>

definition open_wb :: "filesystem \<Rightarrow> string \<Rightarrow> error + (string list \<times> filesystem)" where
  "open_wb fs path =
     (if CHR 0x00 \<in> set path then Inl ValueError
      else if path = [] then Inl FileNotFoundError
      else if PATH_MAX \<le> length path then Inl OSError
      else if strip_slashes (split_sep CHR ''/'' path) = [] then Inl IsADirectoryError
      else
        and_then (dirname_walk fs path) (\<lambda>parent.
          let name = last (strip_slashes (split_sep CHR ''/'' path)) in
          if strip_slashes (split_sep CHR ''/'' path) \<noteq> split_sep CHR ''/'' path
             \<or> name = ''.'' \<or> name = ''..'' \<or> parent @ [name] \<in> dirs fs
          then Inl IsADirectoryError
          else if NAME_MAX < length name then Inl OSError
          else
            (case os_refuses fs (parent @ [name]) of
               Some e \<Rightarrow> Inl e
             | None \<Rightarrow>
                 Inr (parent @ [name], fs\<lparr>files := (files fs)(parent @ [name] \<mapsto> [])\<rparr>))))"

text \<open>\<^verbatim>\<open>f.write(data)\<close> and \<^verbatim>\<open>f.flush()\<close> on the file opened.\<close>

definition write_file :: "filesystem \<Rightarrow> string list \<Rightarrow> bytes \<Rightarrow> error + filesystem" where
  "write_file fs f data =
     (case write_refuses fs f data of
        Some e \<Rightarrow> Inl e
      | None \<Rightarrow> Inr (fs\<lparr>files := (files fs)(f \<mapsto> data)\<rparr>))"

text \<open>\<^verbatim>\<open>os.path.join(a, b)\<close> of \<^verbatim>\<open>posixpath\<close>: an absolute \<open>b\<close> replaces \<open>a\<close>.\<close>

definition os_path_join :: "string \<Rightarrow> string \<Rightarrow> string" where
  "os_path_join a b =
     (if take 1 b = ''/'' then b
      else if a = [] \<or> last a = CHR ''/'' then a @ b
      else a @ ''/'' @ b)"

text \<open>
  \<^verbatim>\<open>tempfile.TemporaryDirectory(prefix='aiy-')\<close> makes a new directory in the directory
  of temporary files; leaving the \<^verbatim>\<open>with\<close> block removes it and all that is under it.
\<close>

definition mkdtemp :: "platform \<Rightarrow> filesystem \<Rightarrow> error + (string list \<times> filesystem)" where
  "mkdtemp P fs =
     (let d = gettempdir P @ [''aiy-'' @ mkdtemp_name P] in
      if gettempdir P \<notin> dirs fs then Inl FileNotFoundError
      else if d \<in> dirs fs \<or> files fs d \<noteq> None then Inl FileExistsError
      else
        (case os_refuses fs d of
           Some e \<Rightarrow> Inl e
         | None \<Rightarrow> Inr (d, fs\<lparr>dirs := insert d (dirs fs)\<rparr>)))"

definition rmtree :: "filesystem \<Rightarrow> string list \<Rightarrow> filesystem" where
  "rmtree fs d =
     fs\<lparr>dirs := {p \<in> dirs fs. \<not> prefix d p},
        files := (\<lambda>p. if prefix d p then None else files fs p)\<rparr>"

subsection \<open>Messages and their parsers\<close>

definition stream_msg :: "platform \<Rightarrow> bytes \<Rightarrow> string \<Rightarrow> json" where
  "stream_msg P data kind = JObj [(''type'', JStr kind), (''data'', JStr (b64encode P data))]"

definition exit_msg :: "int \<Rightarrow> json" where
  "exit_msg code = JObj [(''type'', JStr ''exit''), (''code'', JNum code)]"

definition validate_msg :: "platform \<Rightarrow> json \<Rightarrow> error + json" where
  "validate_msg P msg =
     (case validation P of
        None \<Rightarrow> Inr msg
      | Some ok \<Rightarrow> if ok msg then Inr msg else Inl ValidationError)"

text \<open>
  The parsers return \<^verbatim>\<open>None\<close> (here \<open>Inr None\<close>) for a message of another type and a
  tuple otherwise; \<^verbatim>\<open>msg['args']\<close>, \<^verbatim>\<open>msg['signum']\<close> and \<^verbatim>\<open>msg['data']\<close> raise
  \<^verbatim>\<open>KeyError\<close> when the key is missing.
\<close>

definition parse_run_msg ::
  "platform \<Rightarrow> json \<Rightarrow> error + (json \<times> json \<times> json \<times> json \<times> json \<times> json) option" where
  "parse_run_msg P msg =
     and_then (validate_msg P msg) (\<lambda>m.
     and_then (py_get m ''type'' JNull) (\<lambda>t.
       if t \<noteq> JStr ''run'' then Inr None
       else
         and_then (py_getitem msg ''args'') (\<lambda>a.
         and_then (py_get msg ''chunk_size'' (JNum 1024)) (\<lambda>c.
         and_then (py_get msg ''stdout'' (JStr ''pipe'')) (\<lambda>out.
         and_then (py_get msg ''stderr'' (JStr ''pipe'')) (\<lambda>err.
         and_then (py_get msg ''env'' (JObj [])) (\<lambda>env.
         and_then (py_get msg ''files'' (JObj [])) (\<lambda>fls.
           Inr (Some (a, c, out, err, env, fls))))))))))"

definition parse_signal_msg :: "platform \<Rightarrow> json \<Rightarrow> error + json option" where
  "parse_signal_msg P msg =
     and_then (validate_msg P msg) (\<lambda>m.
     and_then (py_get m ''type'' JNull) (\<lambda>t.
       if t \<noteq> JStr ''signal'' then Inr None
       else and_then (py_getitem msg ''signum'') (\<lambda>s. Inr (Some s))))"

definition parse_stdin_msg :: "platform \<Rightarrow> json \<Rightarrow> error + bytes option" where
  "parse_stdin_msg P msg =
     and_then (validate_msg P msg) (\<lambda>m.
     and_then (py_get m ''type'' JNull) (\<lambda>t.
       if t \<noteq> JStr ''stdin'' then Inr None
       else
         and_then (py_getitem msg ''data'') (\<lambda>d.
         and_then (py_encode d) (\<lambda>b.
         and_then (b64decode P b) (\<lambda>data. Inr (Some data))))))"

subsection \<open>Staging: \<^verbatim>\<open>TempDirectory\<close>\<close>

text \<open>
  The loop over \<^verbatim>\<open>files.items()\<close>: each file is opened at
  \<^verbatim>\<open>os.path.join(d, name)\<close> and written; the first exception ends the loop. The file
  system is returned as the loop left it.
\<close>

fun write_files :: "filesystem \<Rightarrow> string \<Rightarrow> (string \<times> json) list \<Rightarrow> filesystem \<times> error option" where
  "write_files fs d [] = (fs, None)"
| "write_files fs d ((name, code) # rest) =
     (case open_wb fs (os_path_join d name) of
        Inl e \<Rightarrow> (fs, Some e)
      | Inr (f, fs1) \<Rightarrow>
          (case py_encode code of
             Inl e \<Rightarrow> (fs1, Some e)
           | Inr data \<Rightarrow>
               (case write_file fs1 f data of
                  Inl e \<Rightarrow> (fs1, Some e)
                | Inr fs2 \<Rightarrow> write_files fs2 d rest)))"

text \<open>\<^verbatim>\<open>files.items()\<close>: only a dict has the method.\<close>

fun py_items :: "json \<Rightarrow> error + (string \<times> json) list" where
  "py_items (JObj kvs) = Inr kvs"
| "py_items _ = Inl AttributeError"

text \<open>
  The context manager up to its \<^verbatim>\<open>yield d\<close>: the result is the directory, or the
  exception that left the \<^verbatim>\<open>with\<close> block of the temporary directory, which has
  removed the directory by then. \<open>TempDirectory_exit\<close> is what follows the \<^verbatim>\<open>yield\<close>.
\<close>

definition TempDirectory :: "platform \<Rightarrow> filesystem \<Rightarrow> json \<Rightarrow> filesystem \<times> (error + string list)" where
  "TempDirectory P fs fls =
     (case mkdtemp P fs of
        Inl e \<Rightarrow> (fs, Inl e)
      | Inr (d, fs1) \<Rightarrow>
          (case py_items fls of
             Inl e \<Rightarrow> (rmtree fs1 d, Inl e)
           | Inr kvs \<Rightarrow>
               (case write_files fs1 (path_str d) kvs of
                  (fs2, Some e) \<Rightarrow> (rmtree fs2 d, Inl e)
                | (fs2, None) \<Rightarrow> (fs2, Inr d))))"

definition TempDirectory_exit :: "filesystem \<Rightarrow> string list \<Rightarrow> filesystem" where
  "TempDirectory_exit fs d = rmtree fs d"

subsection \<open>The child: \<^verbatim>\<open>start_process\<close>, \<^verbatim>\<open>wait_process\<close>, \<^verbatim>\<open>signal_process\<close>\<close>

text \<open>The table \<^verbatim>\<open>CONVERT\<close>; a list or a dict is not hashable.\<close>

fun CONVERT :: "json \<Rightarrow> error + redirect" where
  "CONVERT (JStr s) =
     (if s = ''pipe'' then Inr PIPE
      else if s = ''stdout'' then Inr STDOUT
      else if s = ''null'' then Inr DEVNULL
      else Inl KeyError)"
| "CONVERT (JArr _) = Inl TypeError"
| "CONVERT (JObj _) = Inl TypeError"
| "CONVERT _ = Inl KeyError"

text \<open>\<^verbatim>\<open>collections.ChainMap\<close>: a key is looked up in each map in turn.\<close>

fun ChainMap :: "('k \<rightharpoonup> 'v) list \<Rightarrow> 'k \<rightharpoonup> 'v" where
  "ChainMap [] k = None"
| "ChainMap (m # ms) k = (case m k of Some v \<Rightarrow> Some v | None \<Rightarrow> ChainMap ms k)"

fun py_str :: "json \<Rightarrow> error + string" where
  "py_str (JStr s) = Inr s"
| "py_str _ = Inl TypeError"

text \<open>The overlay as a map: the values of an environment are strings.\<close>

definition env_map :: "json \<Rightarrow> error + (string \<rightharpoonup> string)" where
  "env_map env =
     (case env of
        JObj kvs \<Rightarrow>
          and_then (all_or_raise (\<lambda>kv. py_str (snd kv)) kvs) (\<lambda>vs.
            Inr (map_of (zip (map fst kvs) vs)))
      | _ \<Rightarrow> Inl TypeError)"

text \<open>The arguments of the call of \<^verbatim>\<open>asyncio.create_subprocess_exec\<close>.\<close>

definition spawn_call ::
  "platform \<Rightarrow> json \<Rightarrow> json \<Rightarrow> json \<Rightarrow> json \<Rightarrow> string \<Rightarrow> error + spawn_request" where
  "spawn_call P args out err env d =
     and_then (py_iter args) (\<lambda>xs.
     and_then (CONVERT out) (\<lambda>rout.
     and_then (CONVERT err) (\<lambda>rerr.
     and_then (all_or_raise py_str xs) (\<lambda>argv.
     and_then (env_map env) (\<lambda>overlay.
       if argv = [] then Inl TypeError
       else Inr \<lparr>sp_args = argv, sp_stdin = PIPE, sp_stdout = rout, sp_stderr = rerr,
                 sp_env = ChainMap [overlay, os_environ P], sp_cwd = d\<rparr>)))))"

text \<open>
  The process object: \<^verbatim>\<open>process.stdout\<close> and \<^verbatim>\<open>process.stderr\<close> are stream readers
  where a pipe was asked for and \<^verbatim>\<open>None\<close> otherwise.
\<close>

record process =
  proc_request :: spawn_request
  proc_stdout :: "bytes list option"
  proc_stderr :: "bytes list option"
  proc_returncode :: int

definition start_process ::
  "platform \<Rightarrow> json \<Rightarrow> json \<Rightarrow> json \<Rightarrow> json \<Rightarrow> string \<Rightarrow> error + process" where
  "start_process P args out err env d =
     and_then (spawn_call P args out err env d) (\<lambda>req.
     and_then (create_subprocess_exec P req) (\<lambda>ch.
       Inr \<lparr>proc_request = req,
            proc_stdout = (if sp_stdout req = PIPE then Some (child_stdout ch) else None),
            proc_stderr = (if sp_stderr req = PIPE then Some (child_stderr ch) else None),
            proc_returncode = child_returncode ch\<rparr>))"

text \<open>What the server does to its child.\<close>

datatype call = SendSignal int | StdinWrite bytes | StdinClose | Kill

text \<open>
  \<^verbatim>\<open>wait_process\<close>: the code of a child that has exited, or of one killed now
  (\<open>- 9\<close>, the negated number of \<^verbatim>\<open>SIGKILL\<close>).
\<close>

definition wait_process :: "process \<Rightarrow> bool \<Rightarrow> call list \<times> int" where
  "wait_process p wait_done =
     (if wait_done then ([], proc_returncode p) else ([Kill], - 9))"

definition signal_process :: "platform \<Rightarrow> json \<Rightarrow> call list \<times> error option" where
  "signal_process P signum =
     (case py_int signum of
        Inl e \<Rightarrow> ([], Some e)
      | Inr n \<Rightarrow> ([SendSignal n], send_signal P n))"

subsection \<open>The read loop: \<^verbatim>\<open>ReadOp\<close>\<close>

text \<open>
  A pipe is the list of the bursts of bytes still to arrive on it; the empty list is the end
  of the file. \<^verbatim>\<open>stream.read(n)\<close> of an \<^verbatim>\<open>asyncio.StreamReader\<close> returns the empty
  bytes at once when \<open>n = 0\<close>, all the bytes up to the end of the file when \<open>n < 0\<close>, and
  otherwise at most \<open>n\<close> bytes of what has arrived, or the empty bytes at the end of the
  file.
\<close>

fun stream_read :: "int \<Rightarrow> bytes list \<Rightarrow> bytes \<times> bytes list" where
  "stream_read n [] = ([], [])"
| "stream_read n (b # bs) =
     (if n = 0 then ([], b # bs)
      else if n < 0 then (concat (b # bs), [])
      else if b = [] then stream_read n bs
      else (take (nat n) b, if drop (nat n) b = [] then bs else drop (nat n) b # bs))"

text \<open>
  One turn of the loop of \<^verbatim>\<open>ReadOp\<close>: the pipe after the read, and the message sent,
  \<open>Inr None\<close> for the \<^verbatim>\<open>break\<close>, or the exception of a chunk size that is no integer.
\<close>

definition ReadOp_turn :: "platform \<Rightarrow> bytes list \<Rightarrow> string \<Rightarrow> json \<Rightarrow> bytes list \<times> (error + json option)" where
  "ReadOp_turn P stream kind chunk_size =
     (case py_int chunk_size of
        Inl e \<Rightarrow> (stream, Inl e)
      | Inr n \<Rightarrow>
          (case stream_read n stream of
             (data, stream') \<Rightarrow>
               if data = [] then (stream', Inr None)
               else (stream', Inr (Some (stream_msg P data kind)))))"

subsection \<open>The receive loop: \<^verbatim>\<open>ReceiveOp\<close>\<close>

text \<open>
  A message of the socket is a text frame, with what \<^verbatim>\<open>json.loads\<close> makes of its data
  (\<open>None\<close> when it raises), or a frame of another type.
\<close>

datatype ws_msg = TEXT "json option" | BINARY bytes

text \<open>
  One turn of the loop of \<^verbatim>\<open>ReceiveOp\<close>: the calls on the child, and the exception that
  \<^verbatim>\<open>LogWarning\<close> caught, which ends the turn where it is raised.
\<close>

definition ReceiveOp_turn :: "platform \<Rightarrow> ws_msg \<Rightarrow> call list \<times> error option" where
  "ReceiveOp_turn P msg =
     (case msg of
        BINARY _ \<Rightarrow> ([], None)
      | TEXT None \<Rightarrow> ([], Some JSONDecodeError)
      | TEXT (Some parsed) \<Rightarrow>
          (case parse_signal_msg P parsed of
             Inl e \<Rightarrow> ([], Some e)
           | Inr signal_msg \<Rightarrow>
               (case (case signal_msg of
                        None \<Rightarrow> ([], None)
                      | Some signum \<Rightarrow> signal_process P signum) of
                  (cs, Some e) \<Rightarrow> (cs, Some e)
                | (cs, None) \<Rightarrow>
                    (case parse_stdin_msg P parsed of
                       Inl e \<Rightarrow> (cs, Some e)
                     | Inr None \<Rightarrow> (cs, None)
                     | Inr (Some data) \<Rightarrow>
                         (cs @ [if data \<noteq> [] then StdinWrite data else StdinClose], None)))))"

subsection \<open>The session: \<^verbatim>\<open>communicate\<close>\<close>

text \<open>
  The state of the operations that run side by side once the child is started: the wait for
  the child, the read loops of the pipes that exist, and the receive loop. \<open>sent\<close> are the
  messages sent to the client, in order; \<open>calls\<close> the calls on the child; \<open>warnings\<close> the
  exceptions logged.
\<close>

record mux =
  wait_done :: bool
  out_pipe :: "bytes list option"
  out_done :: bool
  err_pipe :: "bytes list option"
  err_done :: bool
  inbox :: "ws_msg list"
  sent :: "json list"
  calls :: "call list"
  warnings :: "error list"

text \<open>
  The event loop runs one operation at a time, up to its next \<^verbatim>\<open>await\<close>. A schedule
  is the list of its choices: the child exits, a read loop or the receive loop takes a turn,
  or the task of the session is cancelled. A turn of a read loop is its read and its send:
  the reads of the two pipes do not touch each other, so that the order of the messages is
  the order of the turns.
\<close>

datatype event = ChildExit | ReadStdout | ReadStderr | Receive | Cancel

fun mux_step :: "platform \<Rightarrow> json \<Rightarrow> event \<Rightarrow> mux \<Rightarrow> mux" where
  "mux_step P chunk_size ChildExit m = m\<lparr>wait_done := True\<rparr>"
| "mux_step P chunk_size ReadStdout m =
     (case out_pipe m of
        None \<Rightarrow> m
      | Some s \<Rightarrow>
          if out_done m then m
          else (case ReadOp_turn P s ''stdout'' chunk_size of
                  (s', Inl e) \<Rightarrow> m\<lparr>out_pipe := Some s', out_done := True, warnings := warnings m @ [e]\<rparr>
                | (s', Inr None) \<Rightarrow> m\<lparr>out_pipe := Some s', out_done := True\<rparr>
                | (s', Inr (Some msg)) \<Rightarrow> m\<lparr>out_pipe := Some s', sent := sent m @ [msg]\<rparr>))"
| "mux_step P chunk_size ReadStderr m =
     (case err_pipe m of
        None \<Rightarrow> m
      | Some s \<Rightarrow>
          if err_done m then m
          else (case ReadOp_turn P s ''stderr'' chunk_size of
                  (s', Inl e) \<Rightarrow> m\<lparr>err_pipe := Some s', err_done := True, warnings := warnings m @ [e]\<rparr>
                | (s', Inr None) \<Rightarrow> m\<lparr>err_pipe := Some s', err_done := True\<rparr>
                | (s', Inr (Some msg)) \<Rightarrow> m\<lparr>err_pipe := Some s', sent := sent m @ [msg]\<rparr>))"
| "mux_step P chunk_size Receive m =
     (case inbox m of
        [] \<Rightarrow> m
      | x # xs \<Rightarrow>
          (case ReceiveOp_turn P x of
             (cs, w) \<Rightarrow>
               m\<lparr>inbox := xs, calls := calls m @ cs,
                 warnings := warnings m @ (case w of None \<Rightarrow> [] | Some e \<Rightarrow> [e])\<rparr>))"
| "mux_step P chunk_size Cancel m = m"

text \<open>
  The list \<^verbatim>\<open>operations\<close> holds the wait and a read loop for each pipe that exists;
  \<^verbatim>\<open>asyncio.wait(operations)\<close> returns when all of them are done.
\<close>

definition all_done :: "mux \<Rightarrow> bool" where
  "all_done m \<longleftrightarrow>
     wait_done m \<and> (out_pipe m = None \<or> out_done m) \<and> (err_pipe m = None \<or> err_done m)"

text \<open>
  \<^verbatim>\<open>await asyncio.wait(operations)\<close> under a schedule: the state when it returns, with
  \<open>True\<close> when it was left by the cancellation, which \<^verbatim>\<open>communicate\<close> catches. \<open>None\<close>:
  the schedule ends with the session still waiting.
\<close>

fun asyncio_wait :: "platform \<Rightarrow> json \<Rightarrow> event list \<Rightarrow> mux \<Rightarrow> (mux \<times> bool) option" where
  "asyncio_wait P chunk_size [] m = (if all_done m then Some (m, False) else None)"
| "asyncio_wait P chunk_size (e # es) m =
     (if all_done m then Some (m, False)
      else if e = Cancel then Some (m, True)
      else asyncio_wait P chunk_size es (mux_step P chunk_size e m))"


text \<open>
  \<^verbatim>\<open>ws.receive_json()\<close>: the first message has to be a text frame of JSON; a closed
  socket gives a message that is not text.
\<close>

fun receive_json :: "ws_msg list \<Rightarrow> error + json" where
  "receive_json [] = Inl TypeError"
| "receive_json (TEXT (Some j) # _) = Inr j"
| "receive_json (TEXT None # _) = Inl JSONDecodeError"
| "receive_json (BINARY _ # _) = Inl TypeError"

text \<open>
  What a session leaves: the messages sent, the calls on the child, the children started, the
  file system, the exception that left \<^verbatim>\<open>communicate\<close> (logged by \<^verbatim>\<open>spawn\<close>), and the
  state of the operations when the exit message was sent.
\<close>

record outcome =
  o_sent :: "json list"
  o_calls :: "call list"
  o_spawned :: "spawn_request list"
  o_fs :: filesystem
  o_raised :: "error option"
  o_mux :: "mux option"

definition no_child :: "filesystem \<Rightarrow> error option \<Rightarrow> outcome" where
  "no_child fs e =
     \<lparr>o_sent = [], o_calls = [], o_spawned = [], o_fs = fs, o_raised = e, o_mux = None\<rparr>"

definition operations :: "process \<Rightarrow> ws_msg list \<Rightarrow> mux" where
  "operations p msgs =
     \<lparr>wait_done = False, out_pipe = proc_stdout p, out_done = False,
      err_pipe = proc_stderr p, err_done = False,
      inbox = msgs, sent = [], calls = [], warnings = []\<rparr>"

definition communicate :: "platform \<Rightarrow> filesystem \<Rightarrow> ws_msg list \<Rightarrow> event list \<Rightarrow> outcome option" where
  "communicate P fs inbound schedule =
     (case and_then (receive_json inbound) (parse_run_msg P) of
        Inl e \<Rightarrow> Some (no_child fs (Some e))
      | Inr None \<Rightarrow> Some (no_child fs None)
      | Inr (Some (args, chunk_size, out, err, env, fls)) \<Rightarrow>
          (case TempDirectory P fs fls of
             (fs1, Inl e) \<Rightarrow> Some (no_child fs1 (Some e))
           | (fs1, Inr d) \<Rightarrow>
               (case start_process P args out err env (path_str d) of
                  Inl e \<Rightarrow> Some (no_child (TempDirectory_exit fs1 d) (Some e))
                | Inr p \<Rightarrow>
                    (case asyncio_wait P chunk_size schedule (operations p (tl inbound)) of
                       None \<Rightarrow> None
                     | Some (m, cancelled) \<Rightarrow>
                         (case wait_process p (wait_done m) of
                            (ks, code) \<Rightarrow>
                              Some \<lparr>o_sent = sent m @ [exit_msg code],
                                    o_calls = calls m @ ks,
                                    o_spawned = [proc_request p],
                                    o_fs = TempDirectory_exit fs1 d,
                                    o_raised = None,
                                    o_mux = Some m\<rparr>)))))"

subsection \<open>A platform to run the model on\<close>

text \<open>
  Base64 of RFC 4648, for texts that are padded and hold no other character (on these
  every decoder agrees), and a platform on which \<^verbatim>\<open>/bin/sh\<close> is the one executable:
  the child writes \<^verbatim>\<open>A\<close> to its standard output, \<^verbatim>\<open>B\<close> to its standard error and
  exits with code 7.
\<close>

definition b64_alphabet :: string where
  "b64_alphabet = ''ABCDEFGHIJKLMNOPQRSTUVWXYZabcdefghijklmnopqrstuvwxyz0123456789+/''"

definition b64_char :: "nat \<Rightarrow> char" where
  "b64_char i = b64_alphabet ! (i mod 64)"

fun b64_index :: "char \<Rightarrow> string \<Rightarrow> nat option" where
  "b64_index c [] = None"
| "b64_index c (x # xs) = (if c = x then Some 0 else map_option Suc (b64_index c xs))"

fun rfc_b64encode :: "bytes \<Rightarrow> string" where
  "rfc_b64encode (a # b # c # rest) =
     [b64_char (of_char a div 4),
      b64_char (of_char a mod 4 * 16 + of_char b div 16),
      b64_char (of_char b mod 16 * 4 + of_char c div 64),
      b64_char (of_char c mod 64)] @ rfc_b64encode rest"
| "rfc_b64encode [a, b] =
     [b64_char (of_char a div 4),
      b64_char (of_char a mod 4 * 16 + of_char b div 16),
      b64_char (of_char b mod 16 * 4),
      CHR ''='']"
| "rfc_b64encode [a] =
     [b64_char (of_char a div 4), b64_char (of_char a mod 4 * 16), CHR ''='', CHR ''='']"
| "rfc_b64encode [] = []"

fun rfc_b64decode :: "string \<Rightarrow> error + bytes" where
  "rfc_b64decode [] = Inr []"
| "rfc_b64decode (w # x # y # z # rest) =
     (case (b64_index w b64_alphabet, b64_index x b64_alphabet) of
        (Some i, Some j) \<Rightarrow>
          if y = CHR ''='' \<and> z = CHR ''='' \<and> rest = [] then Inr [char_of (i * 4 + j div 16)]
          else
            (case b64_index y b64_alphabet of
               None \<Rightarrow> Inl Base64Error
             | Some k \<Rightarrow>
                 if z = CHR ''='' \<and> rest = []
                 then Inr [char_of (i * 4 + j div 16), char_of (j mod 16 * 16 + k div 4)]
                 else
                   (case b64_index z b64_alphabet of
                      None \<Rightarrow> Inl Base64Error
                    | Some l \<Rightarrow>
                        and_then (rfc_b64decode rest) (\<lambda>bs.
                          Inr (char_of (i * 4 + j div 16) # char_of (j mod 16 * 16 + k div 4)
                               # char_of (k mod 4 * 64 + l) # bs))))
      | _ \<Rightarrow> Inl Base64Error)"
| "rfc_b64decode _ = Inl Base64Error"

definition sample_child :: child where
  "sample_child = \<lparr>child_stdout = [''A''], child_stderr = [''B''], child_returncode = 7\<rparr>"

definition sample_platform :: platform where
  "sample_platform =
     \<lparr>validation = None,
      b64decode = rfc_b64decode,
      b64encode = rfc_b64encode,
      os_environ = [''PATH'' \<mapsto> ''/usr/bin:/bin'', ''HOME'' \<mapsto> ''/root''],
      gettempdir = [''tmp''],
      mkdtemp_name = ''k3x9w2qa'',
      create_subprocess_exec =
        (\<lambda>req. if take 1 (sp_args req) = [''/bin/sh''] then Inr sample_child
               else Inl FileNotFoundError),
      send_signal = (\<lambda>n. None)\<rparr>"

definition sample_fs :: filesystem where
  "sample_fs =
     \<lparr>dirs = {[], [''tmp'']}, files = Map.empty, cwd = [],
      os_refuses = (\<lambda>p. None), write_refuses = (\<lambda>p data. None)\<rparr>"

definition two_files :: "(string \<times> json) list" where
  "two_files = [(''main.py'', JStr ''print(1)''), (''/tmp/evil.py'', JStr ''import os'')]"

definition sample_run :: json where
  "sample_run =
     JObj [(''type'', JStr ''run''),
           (''args'', JArr [JStr ''/bin/sh'', JStr ''-c'', JStr ''printf A; printf B 1>&2; exit 7''])]"

definition sample_schedule :: "event list" where
  "sample_schedule = [ReadStdout, Receive, ChildExit, ReadStderr, ReadStdout, ReadStderr]"

definition sample_dir :: "string list" where
  "sample_dir = [''tmp'', ''aiy-k3x9w2qa'']"

text \<open>The file system once the staging directory is made.\<close>

definition staged_fs :: filesystem where
  "staged_fs = sample_fs\<lparr>dirs := insert sample_dir (dirs sample_fs)\<rparr>"



definition missing_run :: json where
  "missing_run = JObj [(''type'', JStr ''run''), (''args'', JArr [JStr ''/usr/bin/nothing''])]"

definition sample_stdin :: json where
  "sample_stdin = JObj [(''type'', JStr ''stdin''), (''data'', JStr ''aGk='')]"

text \<open>The process that \<^verbatim>\<open>start_process\<close> gives for \<open>sample_run\<close>, by its \<^verbatim>\<open>stderr\<close>.\<close>

definition sample_process :: "json \<Rightarrow> process" where
  "sample_process err =
     \<lparr>proc_request =
        \<lparr>sp_args = [''/bin/sh'', ''-c'', ''printf A; printf B 1>&2; exit 7''],
         sp_stdin = PIPE, sp_stdout = PIPE,
         sp_stderr = (if err = JStr ''stdout'' then STDOUT else PIPE),
         sp_env = ChainMap [Map.empty, os_environ sample_platform],
         sp_cwd = ''/tmp/aiy-k3x9w2qa''\<rparr>,
      proc_stdout = Some [''A''],
      proc_stderr = (if err = JStr ''stdout'' then None else Some [''B'']),
      proc_returncode = 7\<rparr>"

subsection \<open>Predicates of the staging\<close>

text \<open>
  Two file systems are the same tree when they differ in the contents of files only.
  \<open>staged_target\<close> is the file that staging opens for a key: where the key, joined to the
  staging directory, leads. A key with its contents is accepted when the file can be opened
  there, the contents are a string and the string can be written. \<open>staged_files\<close> are
  the files of the keys with their contents; of two keys for one file the later wins.
\<close>

definition same_tree :: "filesystem \<Rightarrow> filesystem \<Rightarrow> bool" where
  "same_tree fs fs' \<longleftrightarrow>
     dirs fs' = dirs fs \<and> cwd fs' = cwd fs \<and> os_refuses fs' = os_refuses fs \<and>
     write_refuses fs' = write_refuses fs"

definition staged_target :: "filesystem \<Rightarrow> string \<Rightarrow> string \<Rightarrow> string list" where
  "staged_target fs ds name =
     (case open_wb fs (os_path_join ds name) of Inl e \<Rightarrow> [] | Inr (f, fs') \<Rightarrow> f)"

definition accepted :: "filesystem \<Rightarrow> string \<Rightarrow> string \<times> json \<Rightarrow> bool" where
  "accepted fs ds kv =
     (case open_wb fs (os_path_join ds (fst kv)) of
        Inl e \<Rightarrow> False
      | Inr (f, fs') \<Rightarrow>
          (case snd kv of JStr s \<Rightarrow> write_refuses fs f s = None | _ \<Rightarrow> False))"

definition staged_files :: "filesystem \<Rightarrow> string \<Rightarrow> (string \<times> json) list \<Rightarrow> (string list \<rightharpoonup> bytes)" where
  "staged_files fs ds kvs =
     map_of (rev (map (\<lambda>kv. (staged_target fs ds (fst kv),
                              case snd kv of JStr s \<Rightarrow> s | _ \<Rightarrow> [])) kvs))"

subsection \<open>Predicates of the properties\<close>










section \<open>Properties\<close>

subsection \<open>Exceptions in sequence\<close>

lemma and_then_Inr [simp]: "and_then (Inr x) f = f x"
  by (simp add: and_then_def)

lemma and_then_Inl [simp]: "and_then (Inl e) f = Inl e"
  by (simp add: and_then_def)

lemma and_then_eq_Inr:
  "and_then r f = Inr y \<longleftrightarrow> (\<exists>x. r = Inr x \<and> f x = Inr y)"
  by (cases r) simp_all

subsection \<open>The parsers\<close>

text \<open>
  C9. A run message that passes the validation is parsed to its \<^verbatim>\<open>args\<close> and, for each
  of the five optional fields, the value of the field when the message has it and the
  default otherwise: 1024 for \<^verbatim>\<open>chunk_size\<close>, \<^verbatim>\<open>"pipe"\<close> for \<^verbatim>\<open>stdout\<close> and for
  \<^verbatim>\<open>stderr\<close>, the empty map for \<^verbatim>\<open>env\<close> and for \<^verbatim>\<open>files\<close>.
\<close>

theorem parse_run_msg_defaults:
  assumes "validate_msg P (JObj kvs) = Inr (JObj kvs)"
    and "map_of kvs ''type'' = Some (JStr ''run'')"
    and "map_of kvs ''args'' = Some a"
  shows "parse_run_msg P (JObj kvs) =
           Inr (Some (a,
             (case map_of kvs ''chunk_size'' of None \<Rightarrow> JNum 1024 | Some v \<Rightarrow> v),
             (case map_of kvs ''stdout'' of None \<Rightarrow> JStr ''pipe'' | Some v \<Rightarrow> v),
             (case map_of kvs ''stderr'' of None \<Rightarrow> JStr ''pipe'' | Some v \<Rightarrow> v),
             (case map_of kvs ''env'' of None \<Rightarrow> JObj [] | Some v \<Rightarrow> v),
             (case map_of kvs ''files'' of None \<Rightarrow> JObj [] | Some v \<Rightarrow> v)))"
  using assms by (simp add: parse_run_msg_def)

theorem parse_run_msg_defaults_witness:
  "parse_run_msg sample_platform
     (JObj [(''type'', JStr ''run''), (''args'', JArr [JStr ''/bin/sh'']),
            (''stderr'', JStr ''null'')]) =
   Inr (Some (JArr [JStr ''/bin/sh''], JNum 1024, JStr ''pipe'', JStr ''null'', JObj [], JObj []))"
proof -
  let ?kvs = "[(''type'', JStr ''run''), (''args'', JArr [JStr ''/bin/sh'']),
               (''stderr'', JStr ''null'')]"
  have v: "validate_msg sample_platform (JObj ?kvs) = Inr (JObj ?kvs)"
    by (simp add: validate_msg_def sample_platform_def)
  have t: "map_of ?kvs ''type'' = Some (JStr ''run'')" by simp
  have a: "map_of ?kvs ''args'' = Some (JArr [JStr ''/bin/sh''])" by simp
  show ?thesis using parse_run_msg_defaults [OF v t a] by simp
qed

text \<open>
  A message of a type that is neither \<^verbatim>\<open>signal\<close> nor \<^verbatim>\<open>stdin\<close> makes the receive
  loop call nothing: each of the two parsers returns \<^verbatim>\<open>None\<close>, or raises when the
  validation refuses the message.
\<close>

lemma parse_signal_msg_other:
  assumes "py_get msg ''type'' JNull = Inr t" and "t \<noteq> JStr ''signal''"
  shows "parse_signal_msg P msg = Inr None \<or> parse_signal_msg P msg = Inl ValidationError"
  using assms by (auto simp: parse_signal_msg_def validate_msg_def split: option.splits)

lemma parse_stdin_msg_other:
  assumes "py_get msg ''type'' JNull = Inr t" and "t \<noteq> JStr ''stdin''"
  shows "parse_stdin_msg P msg = Inr None \<or> parse_stdin_msg P msg = Inl ValidationError"
  using assms by (auto simp: parse_stdin_msg_def validate_msg_def split: option.splits)

lemma ReceiveOp_turn_other:
  assumes "py_get msg ''type'' JNull = Inr t" and "t \<noteq> JStr ''signal''" and "t \<noteq> JStr ''stdin''"
  shows "fst (ReceiveOp_turn P (TEXT (Some msg))) = []"
  using parse_signal_msg_other [OF assms(1,2), of P] parse_stdin_msg_other [OF assms(1,3), of P]
  by (auto simp: ReceiveOp_turn_def)

text \<open>
  C5. Once the child runs, a message of type \<^verbatim>\<open>run\<close> that the receive loop takes from the
  socket is ignored: the turn of the loop makes no call on the child (no signal, no write
  to its standard input, no close of it), sends nothing, and leaves the pipes and the wait
  as they are; the loop has no call that starts a child.
\<close>

theorem later_run_ignored:
  assumes "py_get msg ''type'' JNull = Inr (JStr ''run'')"
    and "inbox m = TEXT (Some msg) # rest"
  shows "fst (ReceiveOp_turn P (TEXT (Some msg))) = [] \<and>
         calls (mux_step P n Receive m) = calls m \<and>
         sent (mux_step P n Receive m) = sent m \<and>
         inbox (mux_step P n Receive m) = rest \<and>
         out_pipe (mux_step P n Receive m) = out_pipe m \<and>
         err_pipe (mux_step P n Receive m) = err_pipe m \<and>
         wait_done (mux_step P n Receive m) = wait_done m \<and>
         out_done (mux_step P n Receive m) = out_done m \<and>
         err_done (mux_step P n Receive m) = err_done m"
proof -
  have "fst (ReceiveOp_turn P (TEXT (Some msg))) = []"
    using assms(1) by (rule ReceiveOp_turn_other) simp_all
  then show ?thesis
    using assms(2) by (simp add: split_beta)
qed

theorem later_run_ignored_witness:
  "fst (ReceiveOp_turn sample_platform
     (TEXT (Some (JObj [(''type'', JStr ''run''), (''args'', JArr [JStr ''/bin/sh''])])))) = [] \<and>
   calls (mux_step sample_platform (JNum 1024) Receive
     \<lparr>wait_done = False, out_pipe = Some [''A''], out_done = False,
      err_pipe = Some [''B''], err_done = False,
      inbox = [TEXT (Some (JObj [(''type'', JStr ''run''), (''args'', JArr [JStr ''/bin/sh''])]))],
      sent = [], calls = [SendSignal 2], warnings = []\<rparr>) = [SendSignal 2]"
proof -
  let ?msg = "JObj [(''type'', JStr ''run''), (''args'', JArr [JStr ''/bin/sh''])]"
  let ?m = "\<lparr>wait_done = False, out_pipe = Some [''A''], out_done = False,
      err_pipe = Some [''B''], err_done = False,
      inbox = [TEXT (Some ?msg)],
      sent = [], calls = [SendSignal 2], warnings = []\<rparr>"
  have t: "py_get ?msg ''type'' JNull = Inr (JStr ''run'')" by simp
  have i: "inbox ?m = TEXT (Some ?msg) # []" by simp
  show ?thesis
    using later_run_ignored [OF t i, of sample_platform "JNum 1024"] by simp
qed

text \<open>
  C7. A \<^verbatim>\<open>stdin\<close> message that passes the validation, with a string for \<^verbatim>\<open>data\<close> that
  \<^verbatim>\<open>base64.b64decode\<close> accepts, is parsed to the decoded bytes; the receive loop writes
  them to the standard input of the child when there is at least one byte, and closes the
  standard input of the child when there is none.
\<close>

theorem parse_stdin_msg_dispatch:
  assumes "validate_msg P msg = Inr msg"
    and "py_get msg ''type'' JNull = Inr (JStr ''stdin'')"
    and "py_getitem msg ''data'' = Inr (JStr s)"
    and "b64decode P s = Inr payload"
    and "inbox m = TEXT (Some msg) # rest"
  shows "parse_stdin_msg P msg = Inr (Some payload) \<and>
         ReceiveOp_turn P (TEXT (Some msg)) =
           ([if payload \<noteq> [] then StdinWrite payload else StdinClose], None) \<and>
         calls (mux_step P n Receive m) =
           calls m @ [if payload \<noteq> [] then StdinWrite payload else StdinClose]"
proof -
  have p: "parse_stdin_msg P msg = Inr (Some payload)"
    using assms(1-4) by (simp add: parse_stdin_msg_def)
  have "parse_signal_msg P msg = Inr None"
    using assms(1,2) by (simp add: parse_signal_msg_def)
  then have r: "ReceiveOp_turn P (TEXT (Some msg)) =
      ([if payload \<noteq> [] then StdinWrite payload else StdinClose], None)"
    using p by (simp add: ReceiveOp_turn_def)
  show ?thesis using p r assms(5) by simp
qed

theorem parse_stdin_msg_dispatch_witness:
  "ReceiveOp_turn sample_platform
     (TEXT (Some (JObj [(''type'', JStr ''stdin''), (''data'', JStr ''aGk='')]))) =
     ([StdinWrite ''hi''], None) \<and>
   ReceiveOp_turn sample_platform
     (TEXT (Some (JObj [(''type'', JStr ''stdin''), (''data'', JStr '''')]))) =
     ([StdinClose], None)"
proof -
  let ?w = "JObj [(''type'', JStr ''stdin''), (''data'', JStr ''aGk='')]"
  let ?c = "JObj [(''type'', JStr ''stdin''), (''data'', JStr '''')]"
  let ?m = "\<lambda>msg. \<lparr>wait_done = False, out_pipe = None, out_done = False,
      err_pipe = None, err_done = False, inbox = [TEXT (Some msg)],
      sent = [], calls = [], warnings = []\<rparr>"
  have v: "validate_msg sample_platform ?w = Inr ?w" "validate_msg sample_platform ?c = Inr ?c"
    by (simp_all add: validate_msg_def sample_platform_def)
  have t: "py_get ?w ''type'' JNull = Inr (JStr ''stdin'')"
    "py_get ?c ''type'' JNull = Inr (JStr ''stdin'')" by simp_all
  have d: "py_getitem ?w ''data'' = Inr (JStr ''aGk='')" "py_getitem ?c ''data'' = Inr (JStr '''')"
    by simp_all
  have b: "b64decode sample_platform ''aGk='' = Inr ''hi''" "b64decode sample_platform '''' = Inr ''''"
    by (simp add: sample_platform_def, code_simp) (simp add: sample_platform_def)
  have i: "inbox (?m ?w) = TEXT (Some ?w) # []" "inbox (?m ?c) = TEXT (Some ?c) # []" by simp_all
  show ?thesis
    using parse_stdin_msg_dispatch [OF v(1) t(1) d(1) b(1) i(1)]
      parse_stdin_msg_dispatch [OF v(2) t(2) d(2) b(2) i(2)]
    by simp
qed

subsection \<open>The environment of the child\<close>

lemma py_str_eq_Inr: "py_str v = Inr s \<longleftrightarrow> v = JStr s"
  by (cases v) auto

lemma env_values_strings:
  "all_or_raise (\<lambda>kv. py_str (snd kv)) kvs = Inr vs \<Longrightarrow> map snd kvs = map JStr vs"
proof (induction kvs arbitrary: vs)
  case Nil
  then show ?case by simp
next
  case (Cons kv kvs)
  then show ?case
    by (auto simp: and_then_eq_Inr py_str_eq_Inr)
qed

lemma map_of_zip_JStr:
  "map snd kvs = map JStr vs \<Longrightarrow>
   map_option JStr (map_of (zip (map fst kvs) vs) k) = map_of kvs k"
proof (induction kvs arbitrary: vs)
  case Nil
  then show ?case by simp
next
  case (Cons kv kvs)
  then obtain v vs' where vs: "vs = v # vs'" by (cases vs) auto
  with Cons show ?case by (cases kv) auto
qed

lemma env_map_lookup:
  assumes "env_map (JObj kvs) = Inr overlay"
  shows "map_option JStr (overlay k) = map_of kvs k"
  using assms
  by (auto simp: env_map_def and_then_eq_Inr dest!: env_values_strings intro: map_of_zip_JStr)

text \<open>
  C6. The environment that \<^verbatim>\<open>start_process\<close> passes to the child it starts gives each
  name of the overlay \<^verbatim>\<open>env\<close> of the run message the value of the overlay, and each
  other name the value that the environment of the server has for it (none when it has
  none); the overlay wins for a name in both.
\<close>

theorem child_env_overlay:
  assumes "start_process P args out err (JObj kvs) d = Inr p"
  shows "(\<exists>ch. create_subprocess_exec P (proc_request p) = Inr ch) \<and>
         map_option JStr (sp_env (proc_request p) k) =
           (case map_of kvs k of
              Some v \<Rightarrow> Some v
            | None \<Rightarrow> map_option JStr (os_environ P k))"
proof -
  from assms obtain req ch where
    req: "spawn_call P args out err (JObj kvs) d = Inr req"
    and ch: "create_subprocess_exec P req = Inr ch"
    and p: "proc_request p = req"
    by (auto simp: start_process_def and_then_eq_Inr)
  from req obtain overlay where
    ov: "env_map (JObj kvs) = Inr overlay"
    and env: "sp_env req = ChainMap [overlay, os_environ P]"
    by (auto simp: spawn_call_def and_then_eq_Inr split: if_splits)
  have "map_option JStr (overlay k) = map_of kvs k"
    using ov by (rule env_map_lookup)
  then have "map_option JStr (ChainMap [overlay, os_environ P] k) =
      (case map_of kvs k of Some v \<Rightarrow> Some v | None \<Rightarrow> map_option JStr (os_environ P k))"
    by (cases "overlay k") (auto split: option.splits simp: eq_commute [of _ "map_of kvs k"])
  with ch p env show ?thesis by auto
qed

theorem child_env_overlay_witness:
  "\<not> isl (start_process sample_platform (JArr [JStr ''/bin/sh''])
       (JStr ''pipe'') (JStr ''pipe'')
       (JObj [(''HOME'', JStr ''/srv''), (''LANG'', JStr ''C'')]) ''/tmp/aiy-k3x9w2qa'') \<and>
   sp_env (proc_request (projr (start_process sample_platform (JArr [JStr ''/bin/sh''])
       (JStr ''pipe'') (JStr ''pipe'')
       (JObj [(''HOME'', JStr ''/srv''), (''LANG'', JStr ''C'')]) ''/tmp/aiy-k3x9w2qa''))) ''HOME''
     = Some ''/srv'' \<and>
   sp_env (proc_request (projr (start_process sample_platform (JArr [JStr ''/bin/sh''])
       (JStr ''pipe'') (JStr ''pipe'')
       (JObj [(''HOME'', JStr ''/srv''), (''LANG'', JStr ''C'')]) ''/tmp/aiy-k3x9w2qa''))) ''PATH''
     = Some ''/usr/bin:/bin''"
proof -
  let ?r = "start_process sample_platform (JArr [JStr ''/bin/sh''])
       (JStr ''pipe'') (JStr ''pipe'')
       (JObj [(''HOME'', JStr ''/srv''), (''LANG'', JStr ''C'')]) ''/tmp/aiy-k3x9w2qa''"
  have "\<exists>p. ?r = Inr p"
    by (simp add: start_process_def spawn_call_def env_map_def sample_platform_def)
  then have s: "?r = Inr (projr ?r)" by auto
  have "\<not> isl ?r" using s by (metis sum.disc(2))
  then show ?thesis
    using child_env_overlay [OF s, of "''HOME''"] child_env_overlay [OF s, of "''PATH''"]
    by (simp add: sample_platform_def)
qed

subsection \<open>The session\<close>









lemma communicate_started:
  assumes "receive_json inbound = Inr first"
    and "parse_run_msg P first = Inr (Some (args, chunk, out, err, env, fls))"
    and "TempDirectory P fs fls = (fs1, Inr d)"
    and "start_process P args out err env (path_str d) = Inr p"
  shows "communicate P fs inbound sched =
     (case asyncio_wait P chunk sched (operations p (tl inbound)) of
        None \<Rightarrow> None
      | Some (m, cancelled) \<Rightarrow>
          Some \<lparr>o_sent = sent m @ [exit_msg (snd (wait_process p (wait_done m)))],
                o_calls = calls m @ fst (wait_process p (wait_done m)),
                o_spawned = [proc_request p],
                o_fs = TempDirectory_exit fs1 d,
                o_raised = None,
                o_mux = Some m\<rparr>)"
  using assms by (simp add: communicate_def split: option.splits prod.splits)








lemma exit_msg_not_stream: "exit_msg c \<noteq> stream_msg P data kind"
  by (simp add: exit_msg_def stream_msg_def)




lemma sample_parse:
  "parse_run_msg sample_platform sample_run =
     Inr (Some (JArr [JStr ''/bin/sh'', JStr ''-c'', JStr ''printf A; printf B 1>&2; exit 7''],
                JNum 1024, JStr ''pipe'', JStr ''pipe'', JObj [], JObj []))"
  by (simp add: parse_run_msg_def validate_msg_def sample_platform_def sample_run_def)

lemma sample_staging:
  "TempDirectory sample_platform sample_fs (JObj []) =
     (sample_fs\<lparr>dirs := insert sample_dir (dirs sample_fs)\<rparr>, Inr sample_dir)"
  by (simp add: TempDirectory_def mkdtemp_def sample_platform_def sample_fs_def sample_dir_def Let_def)

lemma sample_start:
  "start_process sample_platform
     (JArr [JStr ''/bin/sh'', JStr ''-c'', JStr ''printf A; printf B 1>&2; exit 7''])
     (JStr ''pipe'') (JStr ''pipe'') (JObj []) (path_str sample_dir) = Inr (sample_process (JStr ''pipe''))"
  by (simp add: start_process_def spawn_call_def env_map_def sample_platform_def sample_child_def
      sample_process_def path_str_def sample_dir_def)

text \<open>
  With the chunk size 0 the read returns no byte, whatever is on the pipe, and the loop
  ends at its first turn with the pipe as it was.
\<close>

lemma ReadOp_turn_chunk_size_zero: "ReadOp_turn P s kind (JNum 0) = (s, Inr None)"
  by (cases s) (simp_all add: ReadOp_turn_def)






















text \<open>
  C1. When the start of the child fails (the call of \<^verbatim>\<open>asyncio.create_subprocess_exec\<close>
  raises, as for an executable that does not exist), the server sends the client no
  message, so no exit message either: the exception leaves \<^verbatim>\<open>communicate\<close>, where
  \<^verbatim>\<open>spawn\<close> logs it, the staging directory is removed and the session ends.
\<close>

theorem spawn_failure_sends_nothing:
  assumes "receive_json inbound = Inr first"
    and "parse_run_msg P first = Inr (Some (args, chunk, out, err, env, fls))"
    and "TempDirectory P fs fls = (fs1, Inr d)"
    and "spawn_call P args out err env (path_str d) = Inr req"
    and "create_subprocess_exec P req = Inl e"
  shows "communicate P fs inbound sched =
           Some \<lparr>o_sent = [], o_calls = [], o_spawned = [], o_fs = TempDirectory_exit fs1 d,
                 o_raised = Some e, o_mux = None\<rparr> \<and>
         d \<notin> dirs (TempDirectory_exit fs1 d)"
proof -
  have "start_process P args out err env (path_str d) = Inl e"
    using assms(4,5) by (simp add: start_process_def)
  with assms(1-3) show ?thesis
    by (simp add: communicate_def no_child_def TempDirectory_exit_def rmtree_def)
qed

lemma missing_parse:
  "parse_run_msg sample_platform missing_run =
     Inr (Some (JArr [JStr ''/usr/bin/nothing''], JNum 1024, JStr ''pipe'', JStr ''pipe'', JObj [], JObj []))"
  by (simp add: parse_run_msg_def validate_msg_def sample_platform_def missing_run_def)

lemma missing_call:
  "spawn_call sample_platform (JArr [JStr ''/usr/bin/nothing'']) (JStr ''pipe'') (JStr ''pipe'')
     (JObj []) (path_str sample_dir) =
   Inr \<lparr>sp_args = [''/usr/bin/nothing''], sp_stdin = PIPE, sp_stdout = PIPE, sp_stderr = PIPE,
        sp_env = ChainMap [Map.empty, os_environ sample_platform], sp_cwd = ''/tmp/aiy-k3x9w2qa''\<rparr>"
  by (simp add: spawn_call_def env_map_def path_str_def sample_dir_def)

lemma missing_exec:
  "create_subprocess_exec sample_platform
     \<lparr>sp_args = [''/usr/bin/nothing''], sp_stdin = PIPE, sp_stdout = PIPE, sp_stderr = PIPE,
        sp_env = ChainMap [Map.empty, os_environ sample_platform], sp_cwd = ''/tmp/aiy-k3x9w2qa''\<rparr>
   = Inl FileNotFoundError"
  by (simp add: sample_platform_def)

theorem spawn_failure_sends_nothing_witness:
  "map_option o_sent (communicate sample_platform sample_fs [TEXT (Some missing_run)] sample_schedule) = Some [] \<and>
   map_option o_raised (communicate sample_platform sample_fs [TEXT (Some missing_run)] sample_schedule)
     = Some (Some FileNotFoundError)"
proof -
  have r: "receive_json [TEXT (Some missing_run)] = Inr missing_run" by simp
  show ?thesis
    using spawn_failure_sends_nothing [OF r missing_parse sample_staging missing_call missing_exec,
        of sample_schedule]
    by simp
qed

theorem spawn_failure_exit_127_counterexample:
  "map_option o_sent (communicate sample_platform sample_fs [TEXT (Some missing_run)] sample_schedule) = Some [] \<and>
   map_option o_raised (communicate sample_platform sample_fs [TEXT (Some missing_run)] sample_schedule)
     = Some (Some FileNotFoundError) \<and>
   exit_msg 127 \<notin> set (o_sent (the (communicate sample_platform sample_fs [TEXT (Some missing_run)] sample_schedule)))"
proof -
  have "start_process sample_platform (JArr [JStr ''/usr/bin/nothing'']) (JStr ''pipe'') (JStr ''pipe'')
     (JObj []) (path_str sample_dir) = Inl FileNotFoundError"
    by (simp add: start_process_def missing_call missing_exec)
  then show ?thesis
    by (simp add: communicate_def missing_parse sample_staging no_child_def)
qed

text \<open>
  C4. When the first message of a session is a \<^verbatim>\<open>stdin\<close> or a \<^verbatim>\<open>signal\<close> message
  that passes the validation, it is dropped without an answer and without an exception, and
  the session ends: \<^verbatim>\<open>communicate\<close> returns at once, reads no later message and starts
  no child, whatever follows on the socket.
\<close>

theorem first_message_not_run_ends_session:
  assumes "validate_msg P msg = Inr msg"
    and "py_get msg ''type'' JNull = Inr t"
    and "t = JStr ''stdin'' \<or> t = JStr ''signal''"
  shows "communicate P fs (TEXT (Some msg) # rest) sched =
           Some \<lparr>o_sent = [], o_calls = [], o_spawned = [], o_fs = fs,
                 o_raised = None, o_mux = None\<rparr>"
proof -
  have "parse_run_msg P msg = Inr None"
    using assms by (auto simp: parse_run_msg_def)
  then show ?thesis by (simp add: communicate_def no_child_def)
qed

theorem first_message_not_run_ends_session_witness:
  "communicate sample_platform sample_fs [TEXT (Some sample_stdin), TEXT (Some sample_run)] sample_schedule =
     Some \<lparr>o_sent = [], o_calls = [], o_spawned = [], o_fs = sample_fs,
           o_raised = None, o_mux = None\<rparr>"
proof -
  have v: "validate_msg sample_platform sample_stdin = Inr sample_stdin"
    by (simp add: validate_msg_def sample_platform_def)
  have t: "py_get sample_stdin ''type'' JNull = Inr (JStr ''stdin'')"
    by (simp add: sample_stdin_def)
  show ?thesis
    using first_message_not_run_ends_session [OF v t, of sample_fs "[TEXT (Some sample_run)]" sample_schedule]
    by simp
qed

theorem stdin_before_run_counterexample:
  "map_option o_spawned
     (communicate sample_platform sample_fs [TEXT (Some sample_stdin), TEXT (Some sample_run)] sample_schedule)
     = Some [] \<and>
   map_option o_spawned
     (communicate sample_platform sample_fs [TEXT (Some sample_run)] sample_schedule)
     = Some [proc_request (sample_process (JStr ''pipe''))]"
proof -
  have "parse_run_msg sample_platform sample_stdin = Inr None"
    by (simp add: parse_run_msg_def validate_msg_def sample_platform_def sample_stdin_def)
  then have a: "communicate sample_platform sample_fs [TEXT (Some sample_stdin), TEXT (Some sample_run)] sample_schedule
      = Some (no_child sample_fs None)"
    by (simp add: communicate_def)
  have b: "map_option o_spawned
     (communicate sample_platform sample_fs [TEXT (Some sample_run)] sample_schedule)
     = Some [proc_request (sample_process (JStr ''pipe''))]"
    by (simp add: communicate_started [OF _ sample_parse sample_staging sample_start]
     sample_schedule_def operations_def sample_process_def all_done_def ReadOp_turn_def
     wait_process_def)
  from a b show ?thesis by (simp add: no_child_def)
qed

subsection \<open>Staging\<close>

lemma same_tree_refl [simp]: "same_tree fs fs"
  by (simp add: same_tree_def)

lemma same_tree_sym: "same_tree fs fs' \<Longrightarrow> same_tree fs' fs"
  by (simp add: same_tree_def)

lemma same_tree_trans: "same_tree fs fs' \<Longrightarrow> same_tree fs' fs'' \<Longrightarrow> same_tree fs fs''"
  by (simp add: same_tree_def)

lemma same_tree_files [simp]: "same_tree fs (fs\<lparr>files := m\<rparr>)"
  by (simp add: same_tree_def)

lemma walk_same_tree:
  assumes "same_tree fs fs'" and "walk fs cur cs = Inr p"
  shows "walk fs' cur cs = Inr p"
  using assms(2)
proof (induction cs arbitrary: cur)
  case Nil
  then show ?case by simp
next
  case (Cons c cs)
  from assms(1) have eq: "dirs fs' = dirs fs" "os_refuses fs' = os_refuses fs"
    by (simp_all add: same_tree_def)
  show ?case
  proof (cases "c = [] \<or> c = ''.''")
    case True
    with Cons show ?thesis by simp
  next
    case False
    note normal = this
    show ?thesis
    proof (cases "c = ''..''")
      case True
      with Cons normal show ?thesis by simp
    next
      case False
      with Cons.prems normal have w: "walk fs (cur @ [c]) cs = Inr p"
        and i: "cur @ [c] \<in> dirs fs" "os_refuses fs (cur @ [c]) = None" "\<not> NAME_MAX < length c"
        by (auto split: if_splits option.splits)
      from w have "walk fs' (cur @ [c]) cs = Inr p" by (rule Cons.IH)
      with i eq normal False show ?thesis by simp
    qed
  qed
qed

lemma dirname_walk_same_tree:
  assumes "same_tree fs fs'" and "dirname_walk fs path = Inr p"
  shows "dirname_walk fs' path = Inr p"
proof -
  have c: "cwd fs' = cwd fs" using assms(1) by (simp add: same_tree_def)
  from assms(2) have "walk fs (if take 1 path = ''/'' then [] else cwd fs)
       (butlast (strip_slashes (split_sep CHR ''/'' path))) = Inr p"
    by (simp add: dirname_walk_def)
  with assms(1) have "walk fs' (if take 1 path = ''/'' then [] else cwd fs)
       (butlast (strip_slashes (split_sep CHR ''/'' path))) = Inr p"
    by (rule walk_same_tree)
  then show ?thesis by (auto simp: dirname_walk_def c split: if_splits)
qed

lemma open_wb_Inr:
  assumes "open_wb fs path = Inr (f, fs1)"
  shows "fs1 = fs\<lparr>files := (files fs)(f \<mapsto> [])\<rparr>"
    and "\<not> isl (dirname_walk fs path)"
  using assms
  by (auto simp: open_wb_def and_then_eq_Inr Let_def split: if_splits option.splits)

lemma open_wb_same_tree:
  assumes "same_tree fs fs'" and "open_wb fs path = Inr (f, fs1)"
  shows "open_wb fs' path = Inr (f, fs'\<lparr>files := (files fs')(f \<mapsto> [])\<rparr>)"
proof -
  from assms(2) obtain parent where
    p: "dirname_walk fs path = Inr parent"
    by (auto simp: open_wb_def and_then_eq_Inr split: if_splits)
  have p': "dirname_walk fs' path = Inr parent"
    using assms(1) p by (rule dirname_walk_same_tree)
  have eq: "dirs fs' = dirs fs" "os_refuses fs' = os_refuses fs"
    using assms(1) by (simp_all add: same_tree_def)
  from assms(2) show ?thesis
    unfolding open_wb_def p p' eq
    by (auto simp: Let_def split: if_splits option.splits)
qed

lemma isl_dirname_walk_same_tree:
  assumes "same_tree fs fs'"
  shows "isl (dirname_walk fs' path) = isl (dirname_walk fs path)"
proof (cases "dirname_walk fs path")
  case (Inl e)
  show ?thesis
  proof (cases "dirname_walk fs' path")
    case l: (Inl e')
    with Inl show ?thesis by simp
  next
    case (Inr p)
    from same_tree_sym [OF assms] Inr have "dirname_walk fs path = Inr p"
      by (rule dirname_walk_same_tree)
    with Inl show ?thesis by simp
  qed
next
  case (Inr p)
  with assms have "dirname_walk fs' path = Inr p" by (rule dirname_walk_same_tree)
  with Inr show ?thesis by simp
qed

lemma write_file_Inr:
  assumes "write_file fs f data = Inr fs2"
  shows "fs2 = fs\<lparr>files := (files fs)(f \<mapsto> data)\<rparr>"
  using assms by (auto simp: write_file_def split: option.splits)

lemma write_files_Cons:
  "write_files fs ds ((n, c) # rest) =
     (case open_wb fs (os_path_join ds n) of
        Inl e \<Rightarrow> (fs, Some e)
      | Inr (f, fs1) \<Rightarrow>
          (case py_encode c of
             Inl e \<Rightarrow> (fs1, Some e)
           | Inr data \<Rightarrow>
               (case write_file fs1 f data of
                  Inl e \<Rightarrow> (fs1, Some e)
                | Inr fs2 \<Rightarrow> write_files fs2 ds rest)))"
  by simp

lemma write_files_same_tree: "same_tree fs (fst (write_files fs ds kvs))"
proof (induction kvs arbitrary: fs)
  case Nil
  then show ?case by simp
next
  case (Cons kv kvs)
  obtain n c where kv: "kv = (n, c)" by (cases kv) auto
  show ?case
  proof (cases "open_wb fs (os_path_join ds n)")
    case (Inl e)
    then show ?thesis unfolding kv write_files_Cons by simp
  next
    case (Inr r)
    obtain f fs1 where r: "r = (f, fs1)" by (cases r) auto
    have t1: "same_tree fs fs1" using Inr r open_wb_Inr(1) [of fs "os_path_join ds n" f fs1] by simp
    show ?thesis
    proof (cases "py_encode c")
      case (Inl e)
      with Inr r t1 show ?thesis unfolding kv write_files_Cons by simp
    next
      case enc: (Inr data)
      show ?thesis
      proof (cases "write_file fs1 f data")
        case (Inl e)
        with Inr r t1 enc show ?thesis unfolding kv write_files_Cons by simp
      next
        case w: (Inr fs2)
        have "same_tree fs1 fs2" using write_file_Inr [OF w] by simp
        with t1 have "same_tree fs fs2" by (rule same_tree_trans)
        moreover have "same_tree fs2 (fst (write_files fs2 ds kvs))" by (rule Cons.IH)
        ultimately have "same_tree fs (fst (write_files fs2 ds kvs))" by (rule same_tree_trans)
        with Inr r enc w show ?thesis unfolding kv write_files_Cons by simp
      qed
    qed
  qed
qed

lemma write_files_raises:
  assumes "(name, code) \<in> set kvs"
    and "isl (dirname_walk fs (os_path_join ds name))"
  shows "snd (write_files fs ds kvs) \<noteq> None"
  using assms
proof (induction kvs arbitrary: fs)
  case Nil
  then show ?case by simp
next
  case (Cons kv kvs)
  obtain n c where kv: "kv = (n, c)" by (cases kv) auto
  show ?case
  proof (cases "open_wb fs (os_path_join ds n)")
    case (Inl e)
    then show ?thesis unfolding kv write_files_Cons by simp
  next
    case (Inr r)
    obtain f fs1 where r: "r = (f, fs1)" by (cases r) auto
    have "\<not> isl (dirname_walk fs (os_path_join ds n))"
      using Inr r open_wb_Inr(2) by blast
    then have "n \<noteq> name" using Cons.prems(2) by auto
    with Cons.prems(1) kv have tail: "(name, code) \<in> set kvs" by auto
    have t1: "same_tree fs fs1" using Inr r open_wb_Inr(1) [of fs "os_path_join ds n" f fs1] by simp
    show ?thesis
    proof (cases "py_encode c")
      case (Inl e)
      with Inr r show ?thesis unfolding kv write_files_Cons by simp
    next
      case enc: (Inr data)
      show ?thesis
      proof (cases "write_file fs1 f data")
        case (Inl e)
        with Inr r enc show ?thesis unfolding kv write_files_Cons by simp
      next
        case w: (Inr fs2)
        have "same_tree fs1 fs2" using write_file_Inr [OF w] by simp
        with t1 have "same_tree fs fs2" by (rule same_tree_trans)
        then have "isl (dirname_walk fs2 (os_path_join ds name))"
          using Cons.prems(2) by (simp add: isl_dirname_walk_same_tree)
        with tail have "snd (write_files fs2 ds kvs) \<noteq> None" by (rule Cons.IH)
        with Inr r enc w show ?thesis unfolding kv write_files_Cons by simp
      qed
    qed
  qed
qed

lemma mkdtemp_Inr:
  assumes "mkdtemp P fs = Inr (d, fs1)"
  shows "fs1 = fs\<lparr>dirs := insert d (dirs fs)\<rparr>"
  using assms by (auto simp: mkdtemp_def Let_def split: if_splits option.splits)

lemma rmtree_gone:
  assumes "prefix d p"
  shows "p \<notin> dirs (rmtree fs d)" and "files (rmtree fs d) p = None"
  using assms by (simp_all add: rmtree_def)

lemma rmtree_kept:
  assumes "\<not> prefix d p"
  shows "files (rmtree fs d) p = files fs p"
  using assms by (simp add: rmtree_def)

text \<open>
  C10. Staging raises for every files map with a key whose path, joined to the staging
  directory, cannot be followed to its directory, as for \<^verbatim>\<open>sub/main.py\<close> in a new
  staging directory, where \<^verbatim>\<open>sub\<close> does not exist: staging makes no directory, so that
  the file of such a key can be opened at no point of the staging. What staging leaves
  then has no directory that was not there before, and nothing of the staging directory.
\<close>

theorem missing_directory_raises:
  assumes "mkdtemp P fs = Inr (d, fs1)"
    and "(name, code) \<in> set kvs"
    and "isl (dirname_walk fs1 (os_path_join (path_str d) name))"
  shows "(\<exists>fs' e. TempDirectory P fs (JObj kvs) = (fs', Inl e) \<and> dirs fs' \<subseteq> dirs fs \<and>
           (\<forall>p. prefix d p \<longrightarrow> p \<notin> dirs fs' \<and> files fs' p = None)) \<and>
         (\<forall>fs2. same_tree fs1 fs2 \<longrightarrow> isl (open_wb fs2 (os_path_join (path_str d) name)))"
proof
  obtain fs2 r where w: "write_files fs1 (path_str d) kvs = (fs2, r)"
    by (cases "write_files fs1 (path_str d) kvs") auto
  have "snd (write_files fs1 (path_str d) kvs) \<noteq> None"
    using assms(2,3) by (rule write_files_raises)
  with w obtain e where e: "r = Some e" by auto
  have "same_tree fs1 fs2" using write_files_same_tree [of fs1 "path_str d" kvs] w by simp
  then have "dirs fs2 = dirs fs1" by (simp add: same_tree_def)
  moreover have "dirs fs1 = insert d (dirs fs)"
    using mkdtemp_Inr [OF assms(1)] by simp
  ultimately have "dirs (rmtree fs2 d) \<subseteq> dirs fs"
    by (auto simp: rmtree_def)
  moreover have "TempDirectory P fs (JObj kvs) = (rmtree fs2 d, Inl e)"
    using assms(1) w e by (simp add: TempDirectory_def)
  ultimately show "\<exists>fs' e. TempDirectory P fs (JObj kvs) = (fs', Inl e) \<and> dirs fs' \<subseteq> dirs fs \<and>
           (\<forall>p. prefix d p \<longrightarrow> p \<notin> dirs fs' \<and> files fs' p = None)"
    using rmtree_gone [of d _ fs2] by blast
next
  show "\<forall>fs2. same_tree fs1 fs2 \<longrightarrow> isl (open_wb fs2 (os_path_join (path_str d) name))"
  proof (intro allI impI)
    fix fs2 assume "same_tree fs1 fs2"
    then have "isl (dirname_walk fs2 (os_path_join (path_str d) name))"
      using assms(3) by (simp add: isl_dirname_walk_same_tree)
    then show "isl (open_wb fs2 (os_path_join (path_str d) name))"
      using open_wb_Inr(2) [of fs2 "os_path_join (path_str d) name"]
      by (cases "open_wb fs2 (os_path_join (path_str d) name)") auto
  qed
qed

lemma open_wb_isl_same_tree:
  assumes "same_tree fs fs'"
  shows "isl (open_wb fs' path) = isl (open_wb fs path)"
proof (cases "open_wb fs path")
  case (Inl e)
  show ?thesis
  proof (cases "open_wb fs' path")
    case l: (Inl e')
    with Inl show ?thesis by simp
  next
    case (Inr r)
    obtain f fs2 where "r = (f, fs2)" by (cases r) auto
    with Inr same_tree_sym [OF assms] have "open_wb fs path = Inr (f, fs\<lparr>files := (files fs)(f \<mapsto> [])\<rparr>)"
      by (auto intro: open_wb_same_tree)
    with Inl show ?thesis by simp
  qed
next
  case (Inr r)
  obtain f fs2 where "r = (f, fs2)" by (cases r) auto
  with Inr assms have "open_wb fs' path = Inr (f, fs'\<lparr>files := (files fs')(f \<mapsto> [])\<rparr>)"
    by (auto intro: open_wb_same_tree)
  with Inr show ?thesis by simp
qed

lemma staged_target_same_tree:
  assumes "same_tree fs fs'"
  shows "staged_target fs' ds name = staged_target fs ds name"
proof (cases "open_wb fs (os_path_join ds name)")
  case (Inl e)
  then have "isl (open_wb fs' (os_path_join ds name))"
    using open_wb_isl_same_tree [OF assms, of "os_path_join ds name"] by simp
  with Inl show ?thesis by (auto simp: staged_target_def split: sum.splits)
next
  case (Inr r)
  obtain f fs2 where r: "r = (f, fs2)" by (cases r) auto
  with Inr assms have "open_wb fs' (os_path_join ds name) = Inr (f, fs'\<lparr>files := (files fs')(f \<mapsto> [])\<rparr>)"
    by (auto intro: open_wb_same_tree)
  with Inr r show ?thesis by (simp add: staged_target_def)
qed

lemma accepted_same_tree:
  assumes "same_tree fs fs'"
  shows "accepted fs' ds kv = accepted fs ds kv"
proof (cases "open_wb fs (os_path_join ds (fst kv))")
  case (Inl e)
  then have "isl (open_wb fs' (os_path_join ds (fst kv)))"
    using open_wb_isl_same_tree [OF assms, of "os_path_join ds (fst kv)"] by simp
  with Inl show ?thesis by (auto simp: accepted_def split: sum.splits)
next
  case (Inr r)
  obtain f fs2 where r: "r = (f, fs2)" by (cases r) auto
  with Inr assms have "open_wb fs' (os_path_join ds (fst kv)) = Inr (f, fs'\<lparr>files := (files fs')(f \<mapsto> [])\<rparr>)"
    by (auto intro: open_wb_same_tree)
  moreover have "write_refuses fs' = write_refuses fs" using assms by (simp add: same_tree_def)
  ultimately show ?thesis using Inr r by (simp add: accepted_def split: json.splits)
qed

lemma staged_files_same_tree:
  assumes "same_tree fs fs'"
  shows "staged_files fs' ds kvs = staged_files fs ds kvs"
  by (simp add: staged_files_def staged_target_same_tree [OF assms])

lemma staged_files_Cons:
  "staged_files fs ds ((n, JStr s) # rest) =
     [staged_target fs ds n \<mapsto> s] ++ staged_files fs ds rest"
  by (simp add: staged_files_def)

lemma write_files_accepted:
  assumes "\<forall>kv\<in>set kvs. accepted fs ds kv"
  shows "write_files fs ds kvs = (fs\<lparr>files := files fs ++ staged_files fs ds kvs\<rparr>, None)"
  using assms
proof (induction kvs arbitrary: fs)
  case Nil
  then show ?case by (simp add: staged_files_def)
next
  case (Cons kv kvs)
  obtain n c where kv: "kv = (n, c)" by (cases kv) auto
  from Cons.prems have a: "accepted fs ds (n, c)" by (simp add: kv)
  then obtain f fs1 s where
    o: "open_wb fs (os_path_join ds n) = Inr (f, fs1)"
    and c: "c = JStr s"
    and w: "write_refuses fs f s = None"
    by (auto simp: accepted_def split: sum.splits json.splits)
  have fs1: "fs1 = fs\<lparr>files := (files fs)(f \<mapsto> [])\<rparr>" using o by (rule open_wb_Inr(1))
  let ?fs2 = "fs\<lparr>files := (files fs)(f \<mapsto> s)\<rparr>"
  have w2: "write_file fs1 f s = Inr ?fs2"
    using w by (simp add: write_file_def fs1)
  have t: "staged_target fs ds n = f" using o by (simp add: staged_target_def)
  have st: "same_tree fs ?fs2" by simp
  have "\<forall>kv\<in>set kvs. accepted ?fs2 ds kv"
    using Cons.prems by (simp add: accepted_same_tree [OF st])
  then have "write_files ?fs2 ds kvs = (?fs2\<lparr>files := files ?fs2 ++ staged_files ?fs2 ds kvs\<rparr>, None)"
    by (rule Cons.IH)
  moreover have "staged_files ?fs2 ds kvs = staged_files fs ds kvs"
    using st by (rule staged_files_same_tree)
  moreover have "(files fs)(f \<mapsto> s) ++ staged_files fs ds kvs =
      files fs ++ staged_files fs ds ((n, JStr s) # kvs)"
    unfolding staged_files_Cons t by (simp add: map_add_assoc [symmetric])
  ultimately show ?case
    unfolding kv c write_files_Cons o by (simp add: w2)
qed

lemma staged_files_dom:
  assumes "kv \<in> set kvs"
  shows "staged_files fs ds kvs (staged_target fs ds (fst kv)) \<noteq> None"
proof -
  have "staged_target fs ds (fst kv) \<in>
      fst ` set (rev (map (\<lambda>kv. (staged_target fs ds (fst kv),
                              case snd kv of JStr s \<Rightarrow> s | _ \<Rightarrow> [])) kvs))"
    using assms by force
  then show ?thesis
    unfolding staged_files_def by (simp only: map_of_eq_None_iff not_not)
qed

lemma staged_files_distinct:
  assumes "distinct (map (\<lambda>kv. staged_target fs ds (fst kv)) kvs)"
    and "(name, JStr s) \<in> set kvs"
  shows "staged_files fs ds kvs (staged_target fs ds name) = Some s"
proof -
  let ?g = "\<lambda>kv. (staged_target fs ds (fst kv), case snd kv of JStr s \<Rightarrow> s | _ \<Rightarrow> [])"
  have "map fst (rev (map ?g kvs)) = rev (map (\<lambda>kv. staged_target fs ds (fst kv)) kvs)"
    by (simp add: rev_map comp_def)
  with assms(1) have d: "distinct (map fst (rev (map ?g kvs)))" by simp
  have "(staged_target fs ds name, s) \<in> set (rev (map ?g kvs))"
    using assms(2) by force
  with d show ?thesis unfolding staged_files_def by (rule map_of_is_SomeI)
qed

lemma os_path_join_of_absolute:
  assumes "take 1 name = ''/''"
  shows "os_path_join a name = name"
  using assms by (simp add: os_path_join_def)

lemma TempDirectory_accepted:
  assumes "mkdtemp P fs = Inr (d, fs1)"
    and "\<forall>kv\<in>set kvs. accepted fs1 (path_str d) kv"
  shows "TempDirectory P fs (JObj kvs) =
           (fs1\<lparr>files := files fs1 ++ staged_files fs1 (path_str d) kvs\<rparr>, Inr d)"
proof -
  have "write_files fs1 (path_str d) kvs =
      (fs1\<lparr>files := files fs1 ++ staged_files fs1 (path_str d) kvs\<rparr>, None)"
    using assms(2) by (rule write_files_accepted)
  with assms(1) show ?thesis by (simp add: TempDirectory_def)
qed

lemma TempDirectory_exit_kept:
  assumes "\<not> prefix d t"
  shows "files (TempDirectory_exit fs d) t = files fs t"
  using assms by (simp add: TempDirectory_exit_def rmtree_def)

text \<open>
  C2. Staging checks no key against the staging directory. When every key of the files map
  is accepted (its path, joined to the staging directory with \<^verbatim>\<open>os.path.join\<close>, can be
  opened for writing, and its contents are a string that can be written), staging succeeds
  and writes the file of every key where its joined path leads, inside the staging directory
  or outside it: the files after staging are those before it and those of the keys, each
  with the contents of its key when no two keys lead to one file. The joined path of an
  absolute key is the key itself. A file outside the staging directory is there unchanged
  when the session has removed the directory.
\<close>

theorem staging_checks_no_key:
  assumes "mkdtemp P fs = Inr (d, fs1)"
    and "\<forall>kv\<in>set kvs. accepted fs1 (path_str d) kv"
  shows "TempDirectory P fs (JObj kvs) =
           (fs1\<lparr>files := files fs1 ++ staged_files fs1 (path_str d) kvs\<rparr>, Inr d) \<and>
         (\<forall>kv\<in>set kvs.
            (files fs1 ++ staged_files fs1 (path_str d) kvs)
              (staged_target fs1 (path_str d) (fst kv)) \<noteq> None) \<and>
         (distinct (map (\<lambda>kv. staged_target fs1 (path_str d) (fst kv)) kvs) \<longrightarrow>
            (\<forall>name s. (name, JStr s) \<in> set kvs \<longrightarrow>
               (files fs1 ++ staged_files fs1 (path_str d) kvs)
                 (staged_target fs1 (path_str d) name) = Some s)) \<and>
         (\<forall>t. \<not> prefix d t \<longrightarrow>
            files (TempDirectory_exit
                     (fs1\<lparr>files := files fs1 ++ staged_files fs1 (path_str d) kvs\<rparr>) d) t =
            (files fs1 ++ staged_files fs1 (path_str d) kvs) t) \<and>
         (\<forall>name. take 1 name = ''/'' \<longrightarrow> os_path_join (path_str d) name = name)"
proof (intro conjI ballI allI impI)
  show "TempDirectory P fs (JObj kvs) =
           (fs1\<lparr>files := files fs1 ++ staged_files fs1 (path_str d) kvs\<rparr>, Inr d)"
    using assms by (rule TempDirectory_accepted)
next
  fix kv assume "kv \<in> set kvs"
  then have "staged_files fs1 (path_str d) kvs (staged_target fs1 (path_str d) (fst kv)) \<noteq> None"
    by (rule staged_files_dom)
  then show "(files fs1 ++ staged_files fs1 (path_str d) kvs)
              (staged_target fs1 (path_str d) (fst kv)) \<noteq> None"
    by (auto simp: map_add_def)
next
  fix name s
  assume "distinct (map (\<lambda>kv. staged_target fs1 (path_str d) (fst kv)) kvs)"
    and "(name, JStr s) \<in> set kvs"
  then have "staged_files fs1 (path_str d) kvs (staged_target fs1 (path_str d) name) = Some s"
    by (rule staged_files_distinct)
  then show "(files fs1 ++ staged_files fs1 (path_str d) kvs)
                 (staged_target fs1 (path_str d) name) = Some s"
    by (simp add: map_add_def)
next
  fix t assume "\<not> prefix d t"
  then show "files (TempDirectory_exit
                     (fs1\<lparr>files := files fs1 ++ staged_files fs1 (path_str d) kvs\<rparr>) d) t =
            (files fs1 ++ staged_files fs1 (path_str d) kvs) t"
    by (simp add: TempDirectory_exit_def rmtree_def)
next
  fix name :: string assume "take 1 name = ''/''"
  then show "os_path_join (path_str d) name = name"
    by (rule os_path_join_of_absolute)
qed

lemma sample_mkdtemp: "mkdtemp sample_platform sample_fs = Inr (sample_dir, staged_fs)"
  by (simp add: mkdtemp_def sample_platform_def sample_fs_def sample_dir_def Let_def staged_fs_def)

lemma sample_path_str: "path_str sample_dir = ''/tmp/aiy-k3x9w2qa''"
  by (simp add: path_str_def sample_dir_def)

lemma two_files_accepted: "\<forall>kv\<in>set two_files. accepted staged_fs ''/tmp/aiy-k3x9w2qa'' kv"
  by code_simp

lemma two_files_targets:
  "staged_target staged_fs ''/tmp/aiy-k3x9w2qa'' ''main.py'' = [''tmp'', ''aiy-k3x9w2qa'', ''main.py'']"
  "staged_target staged_fs ''/tmp/aiy-k3x9w2qa'' ''/tmp/evil.py'' = [''tmp'', ''evil.py'']"
  by code_simp+

lemma evil_accepted:
  "\<forall>kv\<in>set [(''/tmp/evil.py'', JStr ''x'')]. accepted staged_fs ''/tmp/aiy-k3x9w2qa'' kv"
  by code_simp

lemma escape_accepted:
  "\<forall>kv\<in>set [(''../escape.py'', JStr ''x'')]. accepted staged_fs ''/tmp/aiy-k3x9w2qa'' kv"
  by code_simp

lemma escape_target:
  "staged_target staged_fs ''/tmp/aiy-k3x9w2qa'' ''../escape.py'' = [''tmp'', ''escape.py'']"
  by code_simp

lemma sub_walk: "isl (dirname_walk staged_fs (os_path_join ''/tmp/aiy-k3x9w2qa'' ''sub/main.py''))"
  by code_simp

theorem staging_checks_no_key_witness:
  "snd (TempDirectory sample_platform sample_fs (JObj two_files)) = Inr sample_dir \<and>
   files (fst (TempDirectory sample_platform sample_fs (JObj two_files)))
     [''tmp'', ''aiy-k3x9w2qa'', ''main.py''] = Some ''print(1)'' \<and>
   files (fst (TempDirectory sample_platform sample_fs (JObj two_files)))
     [''tmp'', ''evil.py''] = Some ''import os'' \<and>
   files (TempDirectory_exit (fst (TempDirectory sample_platform sample_fs (JObj two_files))) sample_dir)
     [''tmp'', ''evil.py''] = Some ''import os''"
proof -
  let ?ds = "''/tmp/aiy-k3x9w2qa''"
  let ?m = "files staged_fs ++ staged_files staged_fs ?ds two_files"
  have a: "\<forall>kv\<in>set two_files. accepted staged_fs (path_str sample_dir) kv"
    unfolding sample_path_str by (rule two_files_accepted)
  have d: "distinct (map (\<lambda>kv. staged_target staged_fs ?ds (fst kv)) two_files)"
    by (simp add: two_files_def two_files_targets)
  have m: "(''main.py'', JStr ''print(1)'') \<in> set two_files"
    and e: "(''/tmp/evil.py'', JStr ''import os'') \<in> set two_files"
    by (simp_all add: two_files_def)
  have p: "\<not> prefix sample_dir [''tmp'', ''evil.py'']" by (simp add: sample_dir_def)
  note r = staging_checks_no_key [OF sample_mkdtemp a, unfolded sample_path_str]
  note t = r [THEN conjunct1]
  note c = r [THEN conjunct2, THEN conjunct2, THEN conjunct1, rule_format, OF d]
  note k = r [THEN conjunct2, THEN conjunct2, THEN conjunct2, THEN conjunct1, rule_format, OF p]
  have 1: "?m [''tmp'', ''aiy-k3x9w2qa'', ''main.py''] = Some ''print(1)''"
    using c [OF m] by (simp only: two_files_targets)
  have 2: "?m [''tmp'', ''evil.py''] = Some ''import os''"
    using c [OF e] by (simp only: two_files_targets)
  have 3: "files (TempDirectory_exit (staged_fs\<lparr>files := ?m\<rparr>) sample_dir) [''tmp'', ''evil.py''] =
      Some ''import os''"
    using k 2 by (simp only:)
  show ?thesis unfolding t using 1 2 3 by simp
qed

theorem absolute_key_counterexample:
  "snd (TempDirectory sample_platform sample_fs (JObj [(''/tmp/evil.py'', JStr ''x'')])) = Inr sample_dir \<and>
   files (fst (TempDirectory sample_platform sample_fs (JObj [(''/tmp/evil.py'', JStr ''x'')])))
     [''tmp'', ''evil.py''] = Some ''x'' \<and>
   \<not> prefix sample_dir [''tmp'', ''evil.py''] \<and>
   files (TempDirectory_exit
            (fst (TempDirectory sample_platform sample_fs (JObj [(''/tmp/evil.py'', JStr ''x'')])))
            sample_dir) [''tmp'', ''evil.py''] = Some ''x''"
proof -
  let ?ds = "''/tmp/aiy-k3x9w2qa''"
  let ?kvs = "[(''/tmp/evil.py'', JStr ''x'')]"
  have a: "\<forall>kv\<in>set ?kvs. accepted staged_fs (path_str sample_dir) kv"
    unfolding sample_path_str by (rule evil_accepted)
  note t = TempDirectory_accepted [OF sample_mkdtemp a, unfolded sample_path_str]
  have p: "\<not> prefix sample_dir [''tmp'', ''evil.py'']" by (simp add: sample_dir_def)
  have s: "staged_files staged_fs ?ds ?kvs [''tmp'', ''evil.py''] = Some ''x''"
    by (simp add: staged_files_def two_files_targets)
  then have f: "(files staged_fs ++ staged_files staged_fs ?ds ?kvs) [''tmp'', ''evil.py''] = Some ''x''"
    by (simp add: map_add_def)
  show ?thesis unfolding t using p f
    by (simp add: TempDirectory_exit_kept)
qed

theorem missing_directory_raises_witness:
  "\<exists>fs' e. TempDirectory sample_platform sample_fs (JObj [(''sub/main.py'', JStr ''print(1)'')]) = (fs', Inl e) \<and>
     dirs fs' \<subseteq> dirs sample_fs \<and> sample_dir \<notin> dirs fs'"
proof -
  have k: "(''sub/main.py'', JStr ''print(1)'') \<in> set [(''sub/main.py'', JStr ''print(1)'')]" by simp
  have w: "isl (dirname_walk staged_fs (os_path_join (path_str sample_dir) ''sub/main.py''))"
    unfolding sample_path_str by (rule sub_walk)
  have p: "prefix sample_dir sample_dir" by simp
  show ?thesis
    using missing_directory_raises [OF sample_mkdtemp k w] p by blast
qed

theorem parent_escape_counterexample:
  "snd (TempDirectory sample_platform sample_fs (JObj [(''../escape.py'', JStr ''x'')])) = Inr sample_dir \<and>
   files (fst (TempDirectory sample_platform sample_fs (JObj [(''../escape.py'', JStr ''x'')])))
     [''tmp'', ''escape.py''] = Some ''x''"
proof -
  let ?ds = "''/tmp/aiy-k3x9w2qa''"
  let ?kvs = "[(''../escape.py'', JStr ''x'')]"
  have a: "\<forall>kv\<in>set ?kvs. accepted staged_fs (path_str sample_dir) kv"
    unfolding sample_path_str by (rule escape_accepted)
  note t = TempDirectory_accepted [OF sample_mkdtemp a, unfolded sample_path_str]
  have s: "staged_files staged_fs ?ds ?kvs [''tmp'', ''escape.py''] = Some ''x''"
    by (simp add: staged_files_def escape_target)
  then have f: "(files staged_fs ++ staged_files staged_fs ?ds ?kvs) [''tmp'', ''escape.py''] = Some ''x''"
    by (simp add: map_add_def)
  show ?thesis unfolding t using f by simp
qed

end
